theory Spec2Isabelle
  imports Main "HOL-Library.Word" "HOL-Library.Signed_Division" "HOL-Library.Sublist"
begin

section \<open>Go values: integers, errors\<close>

text \<open>
  A Go \<^verbatim>\<open>string\<close> and a \<^verbatim>\<open>[]byte\<close> are both byte sequences: \<^typ>\<open>string\<close>
  (a list of 8-bit characters). \<^verbatim>\<open>len\<close> is \<^const>\<open>length\<close>.
  An \<^verbatim>\<open>int64\<close> (also \<^verbatim>\<open>time.Duration\<close>) is a 64-bit word read as
  two's complement: \<open>+\<close>, \<open>-\<close> and \<open>*\<close> wrap, comparisons are the signed ones.
\<close>

type_synonym int64 = "64 word"

text \<open>Go's \<^verbatim>\<open>/\<close> and \<^verbatim>\<open>%\<close> on \<^verbatim>\<open>int64\<close> truncate towards zero.\<close>

definition int64_quo :: "int64 \<Rightarrow> int64 \<Rightarrow> int64" where
  "int64_quo a b = word_of_int (sint a sdiv sint b)"

definition int64_rem :: "int64 \<Rightarrow> int64 \<Rightarrow> int64" where
  "int64_rem a b = word_of_int (sint a smod sint b)"

text \<open>
  Error values. The four sentinels are the package variables of \<^verbatim>\<open>client.go\<close>;
  \<open>PgxErrNoRows\<close> is \<^verbatim>\<open>pgx.ErrNoRows\<close>. \<open>ErrorsNew msg\<close> is \<^verbatim>\<open>errors.New(msg)\<close>,
  \<open>Errorf fmt args\<close> is \<^verbatim>\<open>fmt.Errorf(fmt, args...)\<close> without \<^verbatim>\<open>%w\<close>, and
  \<open>Wrapf fmt e\<close> is \<^verbatim>\<open>fmt.Errorf(fmt, e)\<close> where \<^verbatim>\<open>fmt\<close> ends in \<^verbatim>\<open>%w\<close>.
  \<open>LibError\<close> is an error value made by a library (base64, zlib, json, the database
  driver), \<open>Panic\<close> a run-time panic.
\<close>

datatype fmtarg = ArgByte char | ArgDuration int64 | ArgType string

datatype error =
    ErrSessionNotFound
  | ErrSessionExpired
  | ErrInvalidSignature
  | ErrUserNotFound
  | PgxErrNoRows
  | ErrorsNew string
  | Errorf string "fmtarg list"
  | Wrapf string error
  | LibError string
  | Panic string

text \<open>\<^verbatim>\<open>errors.Is(err, target)\<close>: \<open>err\<close> or an error it wraps with \<^verbatim>\<open>%w\<close> is \<open>target\<close>.\<close>

fun errors_Is :: "error \<Rightarrow> error \<Rightarrow> bool" where
  "errors_Is (Wrapf f e) target = (Wrapf f e = target \<or> errors_Is e target)"
| "errors_Is e target = (e = target)"

section \<open>Codec utilities (signer.go)\<close>

definition base62Alphabet :: string where
  "base62Alphabet = ''0123456789ABCDEFGHIJKLMNOPQRSTUVWXYZabcdefghijklmnopqrstuvwxyz''"

text \<open>
  \<^verbatim>\<open>strings.IndexRune(alphabet, c)\<close> on an ASCII alphabet: the position of the first
  occurrence, \<open>None\<close> for Go's \<open>-1\<close>. The model iterates bytes where Go iterates runes;
  a byte outside ASCII starts a rune that is not in the alphabet, so the same
  position fails.
\<close>

fun strings_IndexByte :: "string \<Rightarrow> char \<Rightarrow> nat option" where
  "strings_IndexByte [] c = None"
| "strings_IndexByte (x # xs) c =
     (if x = c then Some 0 else map_option Suc (strings_IndexByte xs c))"

text \<open>The loop \<^verbatim>\<open>for n > 0 { ... }\<close> of \<^verbatim>\<open>b62Encode\<close>.\<close>

function b62Encode_loop :: "int64 \<Rightarrow> string \<Rightarrow> string" where
  "b62Encode_loop n encoded =
     (if 0 <s n
      then b62Encode_loop (int64_quo n 62) (base62Alphabet ! unat (int64_rem n 62) # encoded)
      else encoded)"
  by pat_completeness auto

termination b62Encode_loop
proof (relation "measure (\<lambda>(n, encoded). nat (sint n))")
  show "wf (measure (\<lambda>(n, encoded). nat (sint n)))" by simp
next
  fix n :: int64 and encoded :: string
  assume pos: "0 <s n"
  then have p: "0 < sint n" by (simp add: word_sless_alt)
  have up: "sint n < 2 ^ 63" using sint_lt [of n] by simp
  have "sint n sdiv 62 = sint n div 62"
    using p by (simp add: signed_divide_int_def sgn_if)
  moreover have "signed_take_bit 63 (sint n div 62) = sint n div 62"
    using p up by (intro signed_take_bit_int_eq_self) auto
  ultimately have "sint (int64_quo n 62) = sint n div 62"
    by (simp add: int64_quo_def sint_sbintrunc')
  then have "sint (int64_quo n 62) < sint n"
    using p by simp
  then show "((int64_quo n 62, base62Alphabet ! unat (int64_rem n 62) # encoded), (n, encoded))
      \<in> measure (\<lambda>(n, encoded). nat (sint n))"
    using p by simp
qed

declare b62Encode_loop.simps [simp del]

definition b62Encode :: "int64 \<Rightarrow> string" where
  "b62Encode n =
     (if n = 0 then ''0''
      else let sign = (if n <s 0 then ''-'' else '''');
               n' = (if n <s 0 then - n else n)
           in sign @ b62Encode_loop n' '''')"

text \<open>The loop \<^verbatim>\<open>for _, char := range s\<close> of \<^verbatim>\<open>b62Decode\<close>.\<close>

fun b62Decode_loop :: "string \<Rightarrow> int64 \<Rightarrow> error + int64" where
  "b62Decode_loop [] decoded = Inr decoded"
| "b62Decode_loop (c # cs) decoded =
     (case strings_IndexByte base62Alphabet c of
        None \<Rightarrow> Inl (Errorf ''invalid base62 character: %c'' [ArgByte c])
      | Some index \<Rightarrow> b62Decode_loop cs (decoded * 62 + of_nat index))"

definition b62Decode :: "string \<Rightarrow> error + int64" where
  "b62Decode s =
     (if s = ''0'' then Inr 0
      else let neg = (s \<noteq> [] \<and> hd s = CHR ''-'');
               s' = (if neg then tl s else s);
               sign = (if neg then - 1 else 1)
           in case b62Decode_loop s' 0 of
                Inl e \<Rightarrow> Inl e
              | Inr decoded \<Rightarrow> Inr (sign * decoded))"


subsection \<open>Base64 (Go's encoding/base64, URL alphabet)\<close>

text \<open>
  \<^verbatim>\<open>base64.URLEncoding\<close> is the encoding of RFC 4648, section 5, with \<^verbatim>\<open>=\<close>
  padding. It belongs to Go's standard library, not to the repository; it is written
  out here because the signer relies on the characters it can produce. A byte is
  read as a number below 256 with \<^const>\<open>of_char\<close>.
\<close>

definition encodeURL :: string where
  "encodeURL = ''ABCDEFGHIJKLMNOPQRSTUVWXYZabcdefghijklmnopqrstuvwxyz0123456789-_''"

definition b64_digit :: "nat \<Rightarrow> char" where
  "b64_digit k = encodeURL ! k"

fun base64_EncodeToString :: "string \<Rightarrow> string" where
  "base64_EncodeToString [] = []"
| "base64_EncodeToString [a] =
     (let x = (of_char a :: nat)
      in [b64_digit (x div 4), b64_digit (x mod 4 * 16), CHR ''='', CHR ''=''])"
| "base64_EncodeToString [a, b] =
     (let x = (of_char a :: nat); y = (of_char b :: nat)
      in [b64_digit (x div 4), b64_digit (x mod 4 * 16 + y div 16),
          b64_digit (y mod 16 * 4), CHR ''=''])"
| "base64_EncodeToString (a # b # c # rest) =
     (let x = (of_char a :: nat); y = (of_char b :: nat); z = (of_char c :: nat)
      in [b64_digit (x div 4), b64_digit (x mod 4 * 16 + y div 16),
          b64_digit (y mod 16 * 4 + z div 64), b64_digit (z mod 64)]
         @ base64_EncodeToString rest)"

definition CorruptInputError :: error where
  "CorruptInputError = LibError ''illegal base64 data''"

text \<open>
  Decoding a string from which carriage returns and line feeds have been removed
  (the decoder skips them): quanta of four characters, padding only in the last.
\<close>

fun base64_decode_quanta :: "string \<Rightarrow> error + string" where
  "base64_decode_quanta [] = Inr []"
| "base64_decode_quanta (a # b # c # d # rest) =
     (case (strings_IndexByte encodeURL a, strings_IndexByte encodeURL b) of
        (Some x, Some y) \<Rightarrow>
          if c = CHR ''='' then
            (if d = CHR ''='' \<and> rest = [] then Inr [char_of (x * 4 + y div 16)]
             else Inl CorruptInputError)
          else
            (case strings_IndexByte encodeURL c of
               None \<Rightarrow> Inl CorruptInputError
             | Some z \<Rightarrow>
                 if d = CHR ''='' then
                   (if rest = []
                    then Inr [char_of (x * 4 + y div 16), char_of (y mod 16 * 16 + z div 4)]
                    else Inl CorruptInputError)
                 else
                   (case strings_IndexByte encodeURL d of
                      None \<Rightarrow> Inl CorruptInputError
                    | Some w \<Rightarrow>
                        (case base64_decode_quanta rest of
                           Inl e \<Rightarrow> Inl e
                         | Inr bs \<Rightarrow>
                             Inr (char_of (x * 4 + y div 16) # char_of (y mod 16 * 16 + z div 4)
                                  # char_of (z mod 4 * 64 + w) # bs))))
      | _ \<Rightarrow> Inl CorruptInputError)"
| "base64_decode_quanta _ = Inl CorruptInputError"

definition base64_DecodeString :: "string \<Rightarrow> error + string" where
  "base64_DecodeString s =
     base64_decode_quanta (filter (\<lambda>c. c \<noteq> CHR 0x0A \<and> c \<noteq> CHR 0x0D) s)"

text \<open>\<^verbatim>\<open>strings.TrimRight(s, cutset)\<close> and \<^verbatim>\<open>strings.Repeat\<close> of a one-byte string.\<close>

definition strings_TrimRight :: "string \<Rightarrow> string \<Rightarrow> string" where
  "strings_TrimRight s cutset = rev (dropWhile (\<lambda>c. c \<in> set cutset) (rev s))"

definition b64Decode :: "string \<Rightarrow> error + string" where
  "b64Decode s =
     (let padding = (4 - length s mod 4) mod 4;
          padded = s @ replicate padding CHR ''=''
      in base64_DecodeString padded)"

definition b64Encode :: "string \<Rightarrow> string" where
  "b64Encode data =
     (let encoded = base64_EncodeToString data
      in strings_TrimRight encoded ''='')"

text \<open>
  Base64url without padding, as the wire format names it: whole groups of three
  bytes give four characters, a rest of one byte gives two, a rest of two gives three.
\<close>

fun base64url_nopad :: "string \<Rightarrow> string" where
  "base64url_nopad [] = []"
| "base64url_nopad [a] =
     (let x = (of_char a :: nat) in [b64_digit (x div 4), b64_digit (x mod 4 * 16)])"
| "base64url_nopad [a, b] =
     (let x = (of_char a :: nat); y = (of_char b :: nat)
      in [b64_digit (x div 4), b64_digit (x mod 4 * 16 + y div 16), b64_digit (y mod 16 * 4)])"
| "base64url_nopad (a # b # c # rest) =
     (let x = (of_char a :: nat); y = (of_char b :: nat); z = (of_char c :: nat)
      in [b64_digit (x div 4), b64_digit (x mod 4 * 16 + y div 16),
          b64_digit (y mod 16 * 4 + z div 64), b64_digit (z mod 64)]
         @ base64url_nopad rest)"

subsection \<open>Substring search (Go's strings package)\<close>

fun strings_Index :: "string \<Rightarrow> string \<Rightarrow> nat option" where
  "strings_Index [] sub = (if sub = [] then Some 0 else None)"
| "strings_Index (x # xs) sub =
     (if prefix sub (x # xs) then Some 0 else map_option Suc (strings_Index xs sub))"

definition strings_Contains :: "string \<Rightarrow> string \<Rightarrow> bool" where
  "strings_Contains s sub = (strings_Index s sub \<noteq> None)"

text \<open>\<^verbatim>\<open>strings.LastIndex\<close>; \<open>None\<close> for \<open>-1\<close>. The empty substring is found at \<open>len(s)\<close>.\<close>

fun strings_LastIndex :: "string \<Rightarrow> string \<Rightarrow> nat option" where
  "strings_LastIndex [] sub = (if sub = [] then Some 0 else None)"
| "strings_LastIndex (x # xs) sub =
     (case strings_LastIndex xs sub of
        Some i \<Rightarrow> Some (Suc i)
      | None \<Rightarrow> if prefix sub (x # xs) then Some 0 else None)"

section \<open>Dynamic values, maps and the library functions the signer calls\<close>

text \<open>
  A finite \<^verbatim>\<open>float64\<close>: \<open>Float64 neg m e\<close> is \<open>(-1)^neg * m * 2^e\<close>. Decoded JSON
  holds no NaN and no infinity.
\<close>

datatype float64 = Float64 (negative: bool) (mantissa: nat) (exponent: int)

text \<open>
  A Go \<^verbatim>\<open>interface{}\<close> value, as far as the code distinguishes it: \<^verbatim>\<open>nil\<close>, the types
  \<^verbatim>\<open>json.Unmarshal\<close> produces, \<^verbatim>\<open>int\<close> (64 bits), and any other type under its
  \<^verbatim>\<open>%T\<close> name.
\<close>

datatype gval =
    GNil
  | GBool bool
  | GString string
  | GFloat64 float64
  | GInt int64
  | GSlice "gval list"
  | GMap "(string \<times> gval) list"
  | GOther string

text \<open>
  A \<^verbatim>\<open>map[string]interface{}\<close> held in a variable is \<^verbatim>\<open>nil\<close> or a map. A map that
  the code ranges over is given as the list of its entries, in the order the loop
  visits them.
\<close>

datatype gomap = NilMap | GoMap "string \<rightharpoonup> gval"

text \<open>\<^verbatim>\<open>v, ok := m[k]\<close>, \<^verbatim>\<open>delete(m, k)\<close> and \<^verbatim>\<open>m[k] = v\<close>.\<close>

fun gomap_lookup :: "gomap \<Rightarrow> string \<Rightarrow> gval option" where
  "gomap_lookup NilMap k = None"
| "gomap_lookup (GoMap f) k = f k"

fun gomap_delete :: "gomap \<Rightarrow> string \<Rightarrow> gomap" where
  "gomap_delete NilMap k = NilMap"
| "gomap_delete (GoMap f) k = GoMap (f(k := None))"

fun gomap_assign :: "gomap \<Rightarrow> string \<Rightarrow> gval \<Rightarrow> error + gomap" where
  "gomap_assign NilMap k v = Inl (Panic ''assignment to entry in nil map'')"
| "gomap_assign (GoMap f) k v = Inr (GoMap (f(k \<mapsto> v)))"

text \<open>
  The functions of crypto/sha256, crypto/hmac, compress/zlib and encoding/json that
  the signer calls are parameters of the model: \<open>hmac_SHA256 key msg\<close>,
  \<open>zlib_Write\<close> (the bytes in the buffer after \<^verbatim>\<open>Write\<close> and \<^verbatim>\<open>Close\<close>),
  \<open>zlib_NewReader\<close> (its error, if any), \<open>io_ReadAll\<close> (reading the whole
  decompressed stream), \<open>json_Marshal\<close> and \<open>json_Unmarshal\<close> into a map variable.
\<close>

record prims =
  sha256_Sum :: "string \<Rightarrow> string"
  hmac_SHA256 :: "string \<Rightarrow> string \<Rightarrow> string"
  zlib_Write :: "string \<Rightarrow> error + string"
  zlib_NewReader :: "string \<Rightarrow> error option"
  io_ReadAll :: "string \<Rightarrow> error + string"
  json_Marshal :: "gomap \<Rightarrow> error + string"
  json_Unmarshal :: "string \<Rightarrow> error + gomap"

subsection \<open>Time\<close>

text \<open>
  An instant is a number of nanoseconds since the Unix epoch; the finite range of
  Go's \<^verbatim>\<open>time.Time\<close> is not modelled. \<^verbatim>\<open>t.Unix()\<close> are the whole seconds,
  \<^verbatim>\<open>time.Unix(sec, 0)\<close> the instant of a second, \<^verbatim>\<open>time.Since(t)\<close> the duration
  from \<open>t\<close> to now, which saturates at the ends of \<^verbatim>\<open>int64\<close>, and
  \<^verbatim>\<open>t.After(u)\<close> holds when \<open>t\<close> is later than \<open>u\<close>. Every function that reads the
  clock takes the current instant \<open>now\<close> as an argument.
\<close>

type_synonym time = int

definition time_Unix_of :: "time \<Rightarrow> int64" where
  "time_Unix_of t = word_of_int (t div 1000000000)"

definition time_Unix :: "int64 \<Rightarrow> time" where
  "time_Unix sec = sint sec * 1000000000"

definition time_Since :: "time \<Rightarrow> time \<Rightarrow> int64" where
  "time_Since now t =
     (let d = now - t
      in if d < - (2 ^ 63) then - (2 ^ 63)
         else if 2 ^ 63 - 1 < d then 2 ^ 63 - 1
         else word_of_int d)"

definition time_After :: "time \<Rightarrow> time \<Rightarrow> bool" where
  "time_After t u = (u < t)"

subsection \<open>Formatting numbers (fmt.Sprintf)\<close>

fun dec_digits :: "nat \<Rightarrow> string" where
  "dec_digits n =
     (if n < 10 then [char_of (48 + n)]
      else dec_digits (n div 10) @ [char_of (48 + n mod 10)])"

declare dec_digits.simps [simp del]

text \<open>\<^verbatim>\<open>%d\<close> of an \<^verbatim>\<open>int\<close>.\<close>

definition fmt_Sprintf_d :: "int64 \<Rightarrow> string" where
  "fmt_Sprintf_d v =
     (if sint v < 0 then ''-'' @ dec_digits (nat (- sint v)) else dec_digits (nat (sint v)))"

text \<open>
  \<^verbatim>\<open>%.0f\<close> of a \<^verbatim>\<open>float64\<close>: the exact value rounded to an integer, a tie going to
  the even neighbour, printed in decimal with the sign of the value.
\<close>

definition round_half_even :: "nat \<Rightarrow> int \<Rightarrow> nat" where
  "round_half_even m e =
     (if 0 \<le> e then m * 2 ^ nat e
      else let d = 2 ^ nat (- e); q = m div d; r = m mod d
           in if d < 2 * r \<or> (2 * r = d \<and> odd q) then q + 1 else q)"

fun fmt_Sprintf_0f :: "float64 \<Rightarrow> string" where
  "fmt_Sprintf_0f (Float64 neg m e) =
     (if neg then ''-'' else []) @ dec_digits (round_half_even m e)"

text \<open>\<^verbatim>\<open>%T\<close>: the name of the dynamic type.\<close>

fun go_type_name :: "gval \<Rightarrow> string" where
  "go_type_name GNil = ''<nil>''"
| "go_type_name (GBool b) = ''bool''"
| "go_type_name (GString s) = ''string''"
| "go_type_name (GFloat64 f) = ''float64''"
| "go_type_name (GInt n) = ''int''"
| "go_type_name (GSlice xs) = ''[]interface {}''"
| "go_type_name (GMap kvs) = ''map[string]interface {}''"
| "go_type_name (GOther t) = t"

section \<open>The signer (signer.go)\<close>

record DjangoSigner =
  SecretKey :: string
  Salt :: string
  Sep :: string
  Algorithm :: string

definition NewDjangoSigner :: "string \<Rightarrow> DjangoSigner" where
  "NewDjangoSigner secretKey =
     \<lparr>SecretKey = secretKey, Salt = ''django.core.signing'', Sep = '':'',
      Algorithm = ''sha256''\<rparr>"

definition saltedHMAC :: "prims \<Rightarrow> DjangoSigner \<Rightarrow> string \<Rightarrow> string \<Rightarrow> string" where
  "saltedHMAC P ds salt v =
     (let derivedKey = sha256_Sum P (salt @ SecretKey ds)
      in hmac_SHA256 P derivedKey v)"

definition signature :: "prims \<Rightarrow> DjangoSigner \<Rightarrow> string \<Rightarrow> string" where
  "signature P ds v =
     (let hashBytes = saltedHMAC P ds (Salt ds @ ''signer'') v
      in b64Encode hashBytes)"

definition constantTimeCompare :: "string \<Rightarrow> string \<Rightarrow> bool" where
  "constantTimeCompare a b = (a = b)"

text \<open>
  \<^verbatim>\<open>s[:i]\<close> is \<open>take i s\<close> and \<^verbatim>\<open>s[i+1:]\<close> is \<open>drop (i + 1) s\<close>; the latter panics
  when \<open>i + 1\<close> exceeds the length, which an empty separator brings about.
\<close>

definition Unsign :: "prims \<Rightarrow> DjangoSigner \<Rightarrow> string \<Rightarrow> error + string" where
  "Unsign P ds signedValue =
     (if \<not> strings_Contains signedValue (Sep ds)
      then Inl (ErrorsNew ''no separator found in value'')
      else case strings_LastIndex signedValue (Sep ds) of
             None \<Rightarrow> Inl (Panic ''slice bounds out of range'')
           | Some lastSepIndex \<Rightarrow>
               if length signedValue < lastSepIndex + 1
               then Inl (Panic ''slice bounds out of range'')
               else let v = take lastSepIndex signedValue;
                        sig = drop (lastSepIndex + 1) signedValue;
                        expectedSig = signature P ds v
                    in if \<not> constantTimeCompare sig expectedSig
                       then Inl (Errorf ''signature does not match'' [])
                       else Inr v)"

definition UnsignTimestamp ::
  "prims \<Rightarrow> DjangoSigner \<Rightarrow> time \<Rightarrow> string \<Rightarrow> int64 option \<Rightarrow> error + string" where
  "UnsignTimestamp P ds now signedValue maxAge =
     (case Unsign P ds signedValue of
        Inl err \<Rightarrow> Inl err
      | Inr result \<Rightarrow>
          if \<not> strings_Contains result (Sep ds)
          then Inl (ErrorsNew ''no timestamp separator found'')
          else case strings_LastIndex result (Sep ds) of
                 None \<Rightarrow> Inl (Panic ''slice bounds out of range'')
               | Some lastSepIndex \<Rightarrow>
                   if length result < lastSepIndex + 1
                   then Inl (Panic ''slice bounds out of range'')
                   else let v = take lastSepIndex result;
                            timestampStr = drop (lastSepIndex + 1) result
                        in case b62Decode timestampStr of
                             Inl err \<Rightarrow> Inl (Wrapf ''invalid timestamp: %w'' err)
                           | Inr timestamp \<Rightarrow>
                               (case maxAge of
                                  None \<Rightarrow> Inr v
                                | Some bound \<Rightarrow>
                                    let age = time_Since now (time_Unix timestamp)
                                    in if bound <s age
                                       then Inl (Errorf ''signature age %v > %v''
                                                   [ArgDuration age, ArgDuration bound])
                                       else Inr v))"

definition SignTimestamp :: "prims \<Rightarrow> DjangoSigner \<Rightarrow> time \<Rightarrow> string \<Rightarrow> string" where
  "SignTimestamp P ds now v =
     (let timestamp = time_Unix_of now;
          timestampB62 = b62Encode timestamp;
          valueWithTimestamp = v @ Sep ds @ timestampB62;
          sig = signature P ds valueWithTimestamp
      in valueWithTimestamp @ Sep ds @ sig)"


text \<open>
  \<^verbatim>\<open>UnsignObject\<close> calls \<^verbatim>\<open>UnsignTimestamp\<close> with the maximum age it was given
  in both branches of its first \<^verbatim>\<open>if\<close>. The marker \<^verbatim>\<open>.\<close> is looked for only in a
  non-empty string.
\<close>

definition UnsignObject ::
  "prims \<Rightarrow> DjangoSigner \<Rightarrow> time \<Rightarrow> string \<Rightarrow> int64 option \<Rightarrow> error + gomap" where
  "UnsignObject P ds now signedObj maxAge =
     (case UnsignTimestamp P ds now signedObj maxAge of
        Inl err \<Rightarrow> Inl err
      | Inr base64Data0 \<Rightarrow>
          let decompress = (base64Data0 \<noteq> [] \<and> hd base64Data0 = CHR ''.'');
              base64Data = (if decompress then tl base64Data0 else base64Data0)
          in case b64Decode base64Data of
               Inl err \<Rightarrow> Inl (Wrapf ''base64 decode error: %w'' err)
             | Inr data0 \<Rightarrow>
                 (case (if decompress then
                          (case zlib_NewReader P data0 of
                             Some err \<Rightarrow> Inl (Wrapf ''zlib decompress error: %w'' err)
                           | None \<Rightarrow>
                               (case io_ReadAll P data0 of
                                  Inl err \<Rightarrow> Inl (Wrapf ''zlib read error: %w'' err)
                                | Inr decompressed \<Rightarrow> Inr decompressed))
                        else Inr data0) of
                    Inl err \<Rightarrow> Inl err
                  | Inr data \<Rightarrow>
                      (case json_Unmarshal P data of
                         Inl err \<Rightarrow> Inl (Wrapf ''json decode error: %w'' err)
                       | Inr result \<Rightarrow> Inr result)))"

subsection \<open>Session helpers (signer.go)\<close>

text \<open>
  The lookup of \<^verbatim>\<open>_auth_user_id\<close> and the type switch that follow the unsigning, in
  \<^verbatim>\<open>DecodeSessionDataWithSalt\<close> and again in \<^verbatim>\<open>Client.decodeSessionData\<close>.
\<close>

definition userID_of_session :: "gomap \<Rightarrow> error + string" where
  "userID_of_session sessionMap =
     (case gomap_lookup sessionMap ''_auth_user_id'' of
        None \<Rightarrow> Inl (ErrorsNew ''_auth_user_id not found in session'')
      | Some userID \<Rightarrow>
          (case userID of
             GString v \<Rightarrow> Inr v
           | GFloat64 v \<Rightarrow> Inr (fmt_Sprintf_0f v)
           | GInt v \<Rightarrow> Inr (fmt_Sprintf_d v)
           | v \<Rightarrow> Inl (Errorf ''unexpected user ID type: %T'' [ArgType (go_type_name v)])))"

text \<open>\<^verbatim>\<open>time.Duration(maxAgeSeconds) * time.Second\<close>.\<close>

definition seconds_Duration :: "int64 \<Rightarrow> int64" where
  "seconds_Duration maxAgeSeconds = maxAgeSeconds * 1000000000"

definition DecodeSessionDataWithSalt ::
  "prims \<Rightarrow> time \<Rightarrow> string \<Rightarrow> string \<Rightarrow> string \<Rightarrow> int64 \<Rightarrow> error + string" where
  "DecodeSessionDataWithSalt P now sessionData secretKey salt maxAgeSeconds =
     (let signer = \<lparr>SecretKey = secretKey, Salt = salt, Sep = '':'', Algorithm = ''sha256''\<rparr>
      in case (if 0 <s maxAgeSeconds
               then UnsignObject P signer now sessionData (Some (seconds_Duration maxAgeSeconds))
               else UnsignObject P signer now sessionData None) of
           Inl err \<Rightarrow> Inl (Wrapf ''failed to unsign session: %w'' err)
         | Inr sessionMap \<Rightarrow> userID_of_session sessionMap)"






text \<open>
  The loop of \<^verbatim>\<open>UpdateSessionDataWithSalt\<close>: a \<^verbatim>\<open>nil\<close> value deletes the key, any
  other value is stored.
\<close>

fun apply_updates :: "gomap \<Rightarrow> (string \<times> gval) list \<Rightarrow> error + gomap" where
  "apply_updates existingData [] = Inr existingData"
| "apply_updates existingData ((key, v) # rest) =
     (if v = GNil then apply_updates (gomap_delete existingData key) rest
      else case gomap_assign existingData key v of
             Inl e \<Rightarrow> Inl e
           | Inr existingData' \<Rightarrow> apply_updates existingData' rest)"



section \<open>The client (client.go)\<close>

record RawSession =
  SessionKey :: string
  SessionData :: string
  ExpireDate :: time

text \<open>
  The session store: \<open>db key\<close> is what
  \<^verbatim>\<open>QueryRow(ctx, query, key).Scan(...)\<close> gives, the scanned row or the error.
\<close>

type_synonym DBTX = "string \<Rightarrow> error + RawSession"

record Client =
  db :: DBTX
  secretKey :: string
  sessionCookieName :: string
  maxAge :: int64
  signer :: DjangoSigner

record ClientConfig =
  cfg_DB :: "DBTX option"
  cfg_SecretKey :: string
  cfg_SessionCookieName :: string
  cfg_MaxAge :: int64

definition NewClient :: "ClientConfig \<Rightarrow> error + Client" where
  "NewClient config =
     (case cfg_DB config of
        None \<Rightarrow> Inl (ErrorsNew ''database connection is required'')
      | Some d \<Rightarrow>
          if cfg_SecretKey config = [] then Inl (ErrorsNew ''secret key is required'')
          else Inr \<lparr>db = d,
                    secretKey = cfg_SecretKey config,
                    sessionCookieName =
                      (if cfg_SessionCookieName config = [] then ''sessionid''
                       else cfg_SessionCookieName config),
                    maxAge = cfg_MaxAge config,
                    signer = \<lparr>SecretKey = cfg_SecretKey config,
                               Salt = ''django.contrib.sessions.SessionStore'',
                               Sep = '':'', Algorithm = ''sha256''\<rparr>\<rparr>)"

text \<open>
  What a call does besides returning: the queries it sends to the store and the
  payloads it hands to the signer, in order.
\<close>

datatype event = EvQueryRow string | EvUnsignObject string

definition GetRawSession :: "Client \<Rightarrow> time \<Rightarrow> string \<Rightarrow> (error + RawSession) \<times> event list" where
  "GetRawSession c now sessionKey =
     (if sessionKey = [] \<or> 255 < length sessionKey then (Inl ErrSessionNotFound, [])
      else case db c sessionKey of
             Inl err \<Rightarrow>
               (if errors_Is err PgxErrNoRows then Inl ErrSessionNotFound
                else Inl (Wrapf ''database query failed: %w'' err),
                [EvQueryRow sessionKey])
           | Inr session \<Rightarrow>
               (if time_After now (ExpireDate session) then Inl ErrSessionExpired
                else Inr session,
                [EvQueryRow sessionKey]))"

definition decodeSessionData :: "prims \<Rightarrow> Client \<Rightarrow> time \<Rightarrow> string \<Rightarrow> (error + string) \<times> event list" where
  "decodeSessionData P c now sessionData =
     (case (if 0 <s maxAge c
            then UnsignObject P (signer c) now sessionData (Some (maxAge c))
            else UnsignObject P (signer c) now sessionData None) of
        Inl err \<Rightarrow> (Inl err, [EvUnsignObject sessionData])
      | Inr sessionMap \<Rightarrow> (userID_of_session sessionMap, [EvUnsignObject sessionData]))"

definition DecodeSessionUserID :: "prims \<Rightarrow> Client \<Rightarrow> time \<Rightarrow> string \<Rightarrow> (error + string) \<times> event list" where
  "DecodeSessionUserID P c now sessionData = decodeSessionData P c now sessionData"

definition SessionCookieName :: "Client \<Rightarrow> string" where
  "SessionCookieName c = sessionCookieName c"

section \<open>The specification's notions\<close>


text \<open>What decoding an encoded timestamp gives back: the timestamp, or 0 for the least \<^verbatim>\<open>int64\<close>.\<close>

definition b62_back :: "int64 \<Rightarrow> int64" where
  "b62_back n = (if n = - (2 ^ 63) then 0 else n)"




section \<open>Sample instances\<close>

text \<open>
  Stand-ins for the library functions, used where a statement is instantiated at
  concrete data: a digest that keeps the first bytes, a keyed digest that joins key
  and message prefix, a compressor that stores the data behind one header byte, and a
  JSON codec for the two session objects below.
\<close>

definition sample_object :: "string \<Rightarrow> gomap" where
  "sample_object uid = GoMap [''_auth_user_id'' \<mapsto> GString uid]"

definition sample_json :: "string \<Rightarrow> string" where
  "sample_json uid = ''{\"_auth_user_id\":\"'' @ uid @ ''\"}''"

definition sample_prims :: prims where
  "sample_prims =
     \<lparr>sha256_Sum = (\<lambda>m. take 3 m),
      hmac_SHA256 = (\<lambda>k m. k @ take 3 m),
      zlib_Write = (\<lambda>d. Inr (CHR 0x78 # d)),
      zlib_NewReader =
        (\<lambda>d. if d \<noteq> [] \<and> hd d = CHR 0x78 then None
              else Some (LibError ''zlib: invalid header'')),
      io_ReadAll = (\<lambda>d. Inr (tl d)),
      json_Marshal =
        (\<lambda>m. case gomap_lookup m ''_auth_user_id'' of
                Some (GString uid) \<Rightarrow> Inr (sample_json uid)
              | _ \<Rightarrow> Inl (LibError ''json: unsupported value'')),
      json_Unmarshal =
        (\<lambda>d. if d = sample_json ''42'' then Inr (sample_object ''42'')
              else if d = sample_json ''7'' then Inr (sample_object ''7'')
              else Inl (LibError ''invalid character''))\<rparr>"

definition sample_signer :: DjangoSigner where
  "sample_signer =
     \<lparr>SecretKey = ''s3cr3t'', Salt = ''django.contrib.sessions.SessionStore'',
      Sep = '':'', Algorithm = ''sha256''\<rparr>"

definition sample_session :: RawSession where
  "sample_session = \<lparr>SessionKey = ''abc'', SessionData = ''payload'', ExpireDate = 100\<rparr>"

definition sample_client :: Client where
  "sample_client =
     \<lparr>db = (\<lambda>k. if k = ''abc'' then Inr sample_session else Inl PgxErrNoRows),
      secretKey = ''s3cr3t'', sessionCookieName = ''sessionid'', maxAge = 0,
      signer = sample_signer\<rparr>"

section \<open>Properties of the codecs\<close>

subsection \<open>Base 62\<close>

lemma int64_quo_pos: "0 <s n \<Longrightarrow> sint (int64_quo n 62) = sint n div 62"
proof -
  assume pos: "0 <s n"
  then have p: "0 < sint n" by (simp add: word_sless_alt)
  have up: "sint n < 2 ^ 63" using sint_lt [of n] by simp
  have "sint n sdiv 62 = sint n div 62"
    using p by (simp add: signed_divide_int_def sgn_if)
  moreover have "signed_take_bit 63 (sint n div 62) = sint n div 62"
    using p up by (intro signed_take_bit_int_eq_self) auto
  ultimately show ?thesis
    by (simp add: int64_quo_def sint_sbintrunc')
qed

lemma distinct_base62Alphabet: "distinct base62Alphabet"
  by (simp add: base62Alphabet_def)

lemma length_base62Alphabet: "length base62Alphabet = 62"
  by (simp add: base62Alphabet_def)

lemma strings_IndexByte_nth:
  "distinct xs \<Longrightarrow> k < length xs \<Longrightarrow> strings_IndexByte xs (xs ! k) = Some k"
proof (induction xs arbitrary: k)
  case Nil
  then show ?case by simp
next
  case (Cons x xs)
  show ?case
  proof (cases k)
    case 0
    then show ?thesis by simp
  next
    case (Suc j)
    with Cons.prems have "j < length xs" "distinct xs" "x \<noteq> xs ! j" by auto
    with Cons.IH [of j] Suc show ?thesis by simp
  qed
qed

lemma strings_IndexByte_None: "strings_IndexByte xs c = None \<longleftrightarrow> c \<notin> set xs"
  by (induction xs) auto

lemma int64_rem_pos_eq: "0 <s n \<Longrightarrow> int64_rem n 62 = of_nat (nat (sint n mod 62))"
proof -
  assume pos: "0 <s n"
  then have p: "0 < sint n" by (simp add: word_sless_alt)
  have "sint n smod 62 = sint n mod 62"
    using p by (simp add: signed_modulo_int_def sgn_if)
  then have "int64_rem n 62 = word_of_int (sint n mod 62)"
    by (simp add: int64_rem_def)
  also have "sint n mod 62 = int (nat (sint n mod 62))" by simp
  finally show ?thesis by (simp only: of_int_of_nat_eq)
qed

lemma int64_rem_pos: "0 <s n \<Longrightarrow> unat (int64_rem n 62) < 62"
proof -
  assume pos: "0 <s n"
  define m where "m = nat (sint n mod 62)"
  have lt: "m < 62" by (simp add: m_def)
  have "unat (of_nat m :: int64) = m mod 2 ^ LENGTH(64)"
    by (rule unat_of_nat)
  also have "\<dots> = m"
    using lt by simp
  finally show ?thesis using lt int64_rem_pos_eq [OF pos] by (simp add: m_def)
qed

lemma int64_quo_rem: "int64_quo n 62 * 62 + int64_rem n 62 = n"
proof -
  have "int64_quo n 62 * 62 + int64_rem n 62 = word_of_int (sint n sdiv 62 * 62 + sint n smod 62)"
    by (simp add: int64_quo_def int64_rem_def)
  also have "\<dots> = word_of_int (sint n)"
    by (simp only: sdiv_mult_smod_eq)
  finally show ?thesis by simp
qed

lemma b62Decode_loop_append:
  "b62Decode_loop (xs @ ys) d =
     (case b62Decode_loop xs d of Inl e \<Rightarrow> Inl e | Inr d' \<Rightarrow> b62Decode_loop ys d')"
  by (induction xs arbitrary: d) (auto split: option.splits)

lemma b62Encode_loop_acc: "b62Encode_loop n acc = b62Encode_loop n [] @ acc"
proof (induction n arbitrary: acc rule: measure_induct_rule [where f = "\<lambda>n. nat (sint n)"])
  case (less n)
  show ?case
  proof (cases "0 <s n")
    case True
    let ?c = "base62Alphabet ! unat (int64_rem n 62)"
    let ?q = "int64_quo n 62"
    have p: "0 < sint n" using True by (simp add: word_sless_alt)
    have dec: "nat (sint ?q) < nat (sint n)"
      using p by (simp add: int64_quo_pos [OF True])
    have "b62Encode_loop n acc = b62Encode_loop ?q (?c # acc)"
      using True by (subst b62Encode_loop.simps) simp
    also have "\<dots> = b62Encode_loop ?q [] @ ?c # acc"
      by (rule less.IH [OF dec])
    also have "\<dots> = (b62Encode_loop ?q [] @ [?c]) @ acc" by simp
    also have "b62Encode_loop ?q [] @ [?c] = b62Encode_loop ?q [?c]"
      by (rule less.IH [OF dec, symmetric])
    also have "b62Encode_loop ?q [?c] = b62Encode_loop n []"
      using True by (subst (2) b62Encode_loop.simps) simp
    finally show ?thesis .
  next
    case False
    then show ?thesis by (subst (1 2) b62Encode_loop.simps) simp
  qed
qed

lemma b62Encode_loop_step:
  "0 <s n \<Longrightarrow>
     b62Encode_loop n [] = b62Encode_loop (int64_quo n 62) [] @ [base62Alphabet ! unat (int64_rem n 62)]"
  by (subst b62Encode_loop.simps, subst b62Encode_loop_acc) simp

lemma b62Decode_loop_digit:
  "0 <s n \<Longrightarrow>
     b62Decode_loop [base62Alphabet ! unat (int64_rem n 62)] d = Inr (d * 62 + int64_rem n 62)"
  using strings_IndexByte_nth [OF distinct_base62Alphabet, of "unat (int64_rem n 62)"]
    int64_rem_pos [of n]
  by (simp add: length_base62Alphabet)

lemma b62Decode_loop_Encode_loop:
  "\<not> n <s 0 \<Longrightarrow> b62Decode_loop (b62Encode_loop n []) 0 = Inr n"
proof (induction n rule: measure_induct_rule [where f = "\<lambda>n. nat (sint n)"])
  case (less n)
  show ?case
  proof (cases "0 <s n")
    case True
    let ?q = "int64_quo n 62"
    have p: "0 < sint n" using True by (simp add: word_sless_alt)
    have dec: "nat (sint ?q) < nat (sint n)"
      using p by (simp add: int64_quo_pos [OF True])
    have nonneg: "\<not> ?q <s 0"
      using p by (simp add: word_sless_alt int64_quo_pos [OF True])
    have ih: "b62Decode_loop (b62Encode_loop ?q []) 0 = Inr ?q"
      by (rule less.IH [OF dec nonneg])
    have "b62Decode_loop (b62Encode_loop n []) 0 =
        b62Decode_loop [base62Alphabet ! unat (int64_rem n 62)] ?q"
      by (simp only: b62Encode_loop_step [OF True] b62Decode_loop_append ih sum.case)
    also have "\<dots> = Inr (?q * 62 + int64_rem n 62)"
      by (rule b62Decode_loop_digit [OF True])
    also have "\<dots> = Inr n"
      by (simp only: int64_quo_rem)
    finally show ?thesis .
  next
    case False
    with less.prems have "sint n = 0" by (simp add: word_sless_alt)
    then have "n = 0" by (simp add: signed_eq_0_iff)
    then show ?thesis by (subst b62Encode_loop.simps) simp
  qed
qed


lemma b62Encode_loop_nonempty: "0 <s n \<Longrightarrow> b62Encode_loop n [] \<noteq> []"
  by (simp add: b62Encode_loop_step)

lemma b62Decode_loop_minus: "b62Decode_loop (CHR ''-'' # cs) d \<noteq> Inr x"
  by (simp add: base62Alphabet_def)

lemma b62Decode_loop_0: "b62Decode_loop ''0'' 0 = Inr 0"
  by (simp add: base62Alphabet_def)

lemma b62Decode_pos:
  assumes "0 <s n"
  shows "b62Decode (b62Encode_loop n []) = Inr n"
proof -
  let ?s = "b62Encode_loop n []"
  have nn: "\<not> n <s 0" using assms by (simp add: word_sless_alt)
  have dec: "b62Decode_loop ?s 0 = Inr n"
    by (rule b62Decode_loop_Encode_loop [OF nn])
  have n0: "n \<noteq> 0" using assms by auto
  have ne: "?s \<noteq> ''0''"
  proof
    assume "?s = ''0''"
    with dec b62Decode_loop_0 have "n = 0" by simp
    with n0 show False by simp
  qed
  have nm: "\<not> (?s \<noteq> [] \<and> hd ?s = CHR ''-'')"
  proof
    assume "?s \<noteq> [] \<and> hd ?s = CHR ''-''"
    then obtain cs where "?s = CHR ''-'' # cs" by (cases ?s) auto
    with dec b62Decode_loop_minus show False by metis
  qed
  show ?thesis
    unfolding b62Decode_def using ne nm dec by (auto simp: Let_def)
qed

lemma b62Decode_b62Encode:
  assumes "n \<noteq> - (2 ^ 63)"
  shows "b62Decode (b62Encode n) = Inr n"
proof (cases "n = 0")
  case True
  then show ?thesis by (simp add: b62Encode_def b62Decode_def)
next
  case n0: False
  show ?thesis
  proof (cases "n <s 0")
    case False
    then have "0 <s n" using n0 by (auto simp: word_sless_alt signed_eq_0_iff order_less_le)
    then show ?thesis using n0 False by (simp add: b62Encode_def b62Decode_pos)
  next
    case True
    have "sint n \<noteq> - (2 ^ 63)"
    proof
      assume "sint n = - (2 ^ 63)"
      then have "word_of_int (sint n) = (word_of_int (- (2 ^ 63)) :: int64)" by simp
      then show False using assms by simp
    qed
    moreover have "- (2 ^ 63) \<le> sint n" using sint_ge [of n] by simp
    ultimately have lo: "- (2 ^ 63) < sint n" by linarith
    have neg: "sint n < 0" using True by (simp add: word_sless_alt)
    have "sint (- n) = signed_take_bit 63 (- sint n)"
      by (simp add: sint_word_minus)
    also have "\<dots> = - sint n"
      using lo neg by (intro signed_take_bit_int_eq_self) auto
    finally have pos: "0 <s - n" using neg by (simp add: word_sless_alt)
    let ?s = "b62Encode_loop (- n) []"
    have dec: "b62Decode_loop ?s 0 = Inr (- n)"
      using pos by (intro b62Decode_loop_Encode_loop) (simp add: word_sless_alt)
    have "b62Encode n = CHR ''-'' # ?s"
      using n0 True by (simp add: b62Encode_def)
    then show ?thesis
      using dec by (simp add: b62Decode_def)
  qed
qed

text \<open>
  C8. Decoding inverts encoding for every \<^verbatim>\<open>int64\<close> but the least one. For
  \<open>- 2^63\<close> the negation \<^verbatim>\<open>n = -n\<close> of \<^verbatim>\<open>b62Encode\<close> wraps to \<open>- 2^63\<close> again,
  the digit loop does not run, the encoding is the bare sign \<^verbatim>\<open>-\<close>, and decoding
  it gives 0 without an error.
\<close>

theorem b62_min_int64_not_inverted:
  "b62Encode (- (2 ^ 63)) = ''-''
   \<and> b62Decode (b62Encode (- (2 ^ 63))) = Inr 0
   \<and> b62Decode (b62Encode (- (2 ^ 63))) \<noteq> Inr (- (2 ^ 63))"
  by code_simp

subsection \<open>Base64\<close>


lemma length_encodeURL: "length encodeURL = 64"
  by (simp add: encodeURL_def)

lemma b64_digit_mem: "k < 64 \<Longrightarrow> b64_digit k \<in> set encodeURL"
  by (simp add: b64_digit_def length_encodeURL)


lemma encodeURL_excludes:
  "CHR ''='' \<notin> set encodeURL" "CHR '':'' \<notin> set encodeURL" "CHR ''.'' \<notin> set encodeURL"
  "CHR 0x0A \<notin> set encodeURL" "CHR 0x0D \<notin> set encodeURL"
  by (simp_all add: encodeURL_def)


lemma byte_bounds:
  fixes x y z :: nat
  assumes "x < 256" "y < 256" "z < 256"
  shows "x div 4 < 64" "x mod 4 * 16 < 64" "x mod 4 * 16 + y div 16 < 64"
    "y mod 16 * 4 < 64" "y mod 16 * 4 + z div 64 < 64" "z mod 64 < 64"
  using assms by auto





lemma of_char_lt: "(of_char c :: nat) < 256"
  by simp








lemma set_base64url_nopad: "set (base64url_nopad d) \<subseteq> set encodeURL"
proof (induction d rule: base64url_nopad.induct)
  case 1
  show ?case by simp
next
  case (2 a)
  have x: "(of_char a :: nat) < 256" by simp
  show ?case using byte_bounds [OF x x x] by (simp add: Let_def b64_digit_mem)
next
  case (3 a b)
  have x: "(of_char a :: nat) < 256" and y: "(of_char b :: nat) < 256" by simp_all
  show ?case using byte_bounds [OF x y y] by (simp add: Let_def b64_digit_mem)
next
  case (4 a b c rest)
  have x: "(of_char a :: nat) < 256" and y: "(of_char b :: nat) < 256"
    and z: "(of_char c :: nat) < 256" by simp_all
  show ?case using byte_bounds [OF x y z] "4.IH" by (simp add: Let_def b64_digit_mem)
qed

lemma EncodeToString_nopad:
  "base64_EncodeToString d =
     base64url_nopad d @ replicate ((4 - length (base64url_nopad d) mod 4) mod 4) CHR ''=''"
proof (induction d rule: base64url_nopad.induct)
  case 1
  show ?case by simp
next
  case (2 a)
  show ?case by (simp add: Let_def numeral_2_eq_2)
next
  case (3 a b)
  show ?case by (simp add: Let_def)
next
  case (4 a b c rest)
  then show ?case by (simp add: Let_def)
qed

lemma dropWhile_none: "\<forall>x\<in>set ys. \<not> P x \<Longrightarrow> dropWhile P ys = ys"
  by (cases ys) auto

lemma strings_TrimRight_replicate:
  assumes "c \<notin> set xs"
  shows "strings_TrimRight (xs @ replicate k c) [c] = xs"
proof -
  have "dropWhile (\<lambda>x. x \<in> set [c]) (replicate k c @ rev xs)
      = dropWhile (\<lambda>x. x \<in> set [c]) (rev xs)"
    by (rule dropWhile_append2) simp
  also have "\<dots> = rev xs"
  proof (rule dropWhile_none)
    show "\<forall>x\<in>set (rev xs). \<not> x \<in> set [c]" using assms by auto
  qed
  finally show ?thesis by (simp add: strings_TrimRight_def)
qed

lemma b64Encode_nopad: "b64Encode d = base64url_nopad d"
proof -
  have "CHR ''='' \<notin> set (base64url_nopad d)"
    using set_base64url_nopad [of d] encodeURL_excludes(1) by auto
  then show ?thesis
    unfolding b64Encode_def Let_def
    by (subst EncodeToString_nopad) (rule strings_TrimRight_replicate)
qed


lemma set_b64Encode: "set (b64Encode d) \<subseteq> set encodeURL"
  by (simp add: b64Encode_nopad set_base64url_nopad)

lemma b64Encode_no_colon: "CHR '':'' \<notin> set (b64Encode d)"
  using set_b64Encode [of d] encodeURL_excludes(2) by auto


subsection \<open>Separators, signing and unsigning\<close>

lemma strings_Index_char: "strings_Index s [c] = None \<longleftrightarrow> c \<notin> set s"
  by (induction s) auto

lemma strings_Contains_char: "strings_Contains s [c] \<longleftrightarrow> c \<in> set s"
  by (simp add: strings_Contains_def strings_Index_char)

lemma strings_LastIndex_char_None: "c \<notin> set s \<Longrightarrow> strings_LastIndex s [c] = None"
  by (induction s) auto

lemma strings_LastIndex_char:
  "c \<notin> set b \<Longrightarrow> strings_LastIndex (a @ c # b) [c] = Some (length a)"
  by (induction a) (auto simp: strings_LastIndex_char_None)

lemma Unsign_no_separator:
  assumes "Sep ds = [c]" "c \<notin> set s"
  shows "Unsign P ds s = Inl (ErrorsNew ''no separator found in value'')"
  using assms by (simp add: Unsign_def strings_Contains_char)

lemma Unsign_split:
  assumes "Sep ds = [c]" "c \<notin> set b"
  shows "Unsign P ds (a @ c # b) =
     (if b = signature P ds a then Inr a else Inl (Errorf ''signature does not match'' []))"
  using assms
  by (simp add: Unsign_def strings_Contains_char strings_LastIndex_char constantTimeCompare_def)

lemma signature_no_colon: "CHR '':'' \<notin> set (signature P ds v)"
  by (simp add: signature_def b64Encode_no_colon)

lemma set_b62Encode_loop:
  "set (b62Encode_loop n acc) \<subseteq> set base62Alphabet \<union> set acc"
proof (induction n arbitrary: acc rule: measure_induct_rule [where f = "\<lambda>n. nat (sint n)"])
  case (less n)
  show ?case
  proof (cases "0 <s n")
    case True
    let ?c = "base62Alphabet ! unat (int64_rem n 62)"
    let ?q = "int64_quo n 62"
    have p: "0 < sint n" using True by (simp add: word_sless_alt)
    have dec: "nat (sint ?q) < nat (sint n)"
      using p by (simp add: int64_quo_pos [OF True])
    have mem: "?c \<in> set base62Alphabet"
      using int64_rem_pos [OF True] by (simp add: length_base62Alphabet)
    have "b62Encode_loop n acc = b62Encode_loop ?q (?c # acc)"
      using True by (subst b62Encode_loop.simps) simp
    moreover have "set (b62Encode_loop ?q (?c # acc)) \<subseteq> set base62Alphabet \<union> set (?c # acc)"
      by (rule less.IH [OF dec])
    ultimately show ?thesis using mem by auto
  next
    case False
    then show ?thesis by (subst b62Encode_loop.simps) simp
  qed
qed

lemma b62Encode_no_colon: "CHR '':'' \<notin> set (b62Encode n)"
proof -
  have "CHR '':'' \<notin> set base62Alphabet" by (simp add: base62Alphabet_def)
  then have "CHR '':'' \<notin> set (b62Encode_loop m [])" for m
    using set_b62Encode_loop [of m "[]"] by auto
  then show ?thesis by (simp add: b62Encode_def Let_def)
qed

lemma b62Decode_b62Encode_total: "b62Decode (b62Encode n) = Inr (b62_back n)"
proof (cases "n = - (2 ^ 63)")
  case True
  have "b62Decode (b62Encode (- (2 ^ 63))) = Inr 0" by code_simp
  with True show ?thesis by (simp add: b62_back_def)
next
  case False
  then show ?thesis by (simp add: b62_back_def b62Decode_b62Encode)
qed

lemma Unsign_SignTimestamp:
  assumes "Sep ds = '':''"
  shows "Unsign P ds (SignTimestamp P ds now v) = Inr (v @ '':'' @ b62Encode (time_Unix_of now))"
proof -
  let ?vt = "v @ '':'' @ b62Encode (time_Unix_of now)"
  have "SignTimestamp P ds now v = ?vt @ CHR '':'' # signature P ds ?vt"
    using assms by (simp add: SignTimestamp_def Let_def)
  then show ?thesis
    using Unsign_split [of ds "CHR '':''" "signature P ds ?vt" P ?vt] assms signature_no_colon
    by simp
qed

lemma UnsignTimestamp_SignTimestamp:
  assumes "Sep ds = '':''"
  shows "UnsignTimestamp P ds now (SignTimestamp P ds signed_at v) max_age =
     (case max_age of
        None \<Rightarrow> Inr v
      | Some bound \<Rightarrow>
          let age = time_Since now (time_Unix (b62_back (time_Unix_of signed_at)))
          in if bound <s age
             then Inl (Errorf ''signature age %v > %v'' [ArgDuration age, ArgDuration bound])
             else Inr v)"
proof -
  let ?ts = "b62Encode (time_Unix_of signed_at)"
  have u: "Unsign P ds (SignTimestamp P ds signed_at v) = Inr (v @ CHR '':'' # ?ts)"
    using Unsign_SignTimestamp [OF assms] by simp
  have c: "strings_Contains (v @ CHR '':'' # ?ts) '':''"
    by (simp add: strings_Contains_char)
  have l: "strings_LastIndex (v @ CHR '':'' # ?ts) '':'' = Some (length v)"
    by (rule strings_LastIndex_char) (rule b62Encode_no_colon)
  show ?thesis
    unfolding UnsignTimestamp_def u
    using assms c l by (simp add: b62Decode_b62Encode_total Let_def split: option.splits)
qed

section \<open>The token wire format\<close>






section \<open>Signing and unsigning objects\<close>







section \<open>Maximum age\<close>

lemma errors_Is_Errorf: "errors_Is (Errorf f args) target \<longleftrightarrow> target = Errorf f args"
  by auto

text \<open>
  C3 (as amended). A token signed at Unix second \<open>T\<close> (any but the least \<^verbatim>\<open>int64\<close>)
  and checked against a maximum age \<open>bound\<close>: with
  \<open>age = time.Since(time.Unix(T, 0))\<close>, \<^verbatim>\<open>UnsignTimestamp\<close> returns the signed value
  whenever \<open>age\<close> does not exceed \<open>bound\<close>, the boundary \<open>age = bound\<close> included,
  and fails whenever \<open>age\<close> exceeds \<open>bound\<close>. The failure is the error
  \<^verbatim>\<open>fmt.Errorf("signature age %v > %v", age, bound)\<close>, which neither is nor wraps
  \<^verbatim>\<open>ErrSessionExpired\<close>.
\<close>

theorem max_age_enforcement:
  assumes "time_Unix_of signed_at \<noteq> - (2 ^ 63)"
  shows "let ds = \<lparr>SecretKey = secret, Salt = salt, Sep = '':'', Algorithm = alg\<rparr>;
             tok = SignTimestamp P ds signed_at v;
             age = time_Since now (time_Unix (time_Unix_of signed_at))
         in (\<not> bound <s age \<longrightarrow> UnsignTimestamp P ds now tok (Some bound) = Inr v)
          \<and> (bound <s age \<longrightarrow>
               UnsignTimestamp P ds now tok (Some bound)
                 = Inl (Errorf ''signature age %v > %v'' [ArgDuration age, ArgDuration bound])
             \<and> \<not> errors_Is (Errorf ''signature age %v > %v'' [ArgDuration age, ArgDuration bound])
                   ErrSessionExpired)"
proof -
  have b: "b62_back (time_Unix_of signed_at) = time_Unix_of signed_at"
    using assms by (simp add: b62_back_def)
  show ?thesis
    by (simp add: Let_def UnsignTimestamp_SignTimestamp b)
qed

lemma sample_times:
  "time_Unix_of 1700000000000000000 = 1700000000"
  "time_Unix 1700000000 = 1700000000000000000"
  "time_Since 1700000005000000000 1700000000000000000 = 5000000000"
  by (simp_all add: time_Unix_of_def time_Unix_def time_Since_def)

theorem max_age_enforcement_witness:
  "time_Unix_of 1700000000000000000 \<noteq> - (2 ^ 63)
   \<and> UnsignTimestamp sample_prims sample_signer 1700000005000000000
        (SignTimestamp sample_prims sample_signer 1700000000000000000 ''v'') (Some 5000000000)
       = Inr ''v''
   \<and> UnsignTimestamp sample_prims sample_signer 1700000005000000000
        (SignTimestamp sample_prims sample_signer 1700000000000000000 ''v'') (Some 4999999999)
       = Inl (Errorf ''signature age %v > %v'' [ArgDuration 5000000000, ArgDuration 4999999999])"
proof -
  have h: "time_Unix_of 1700000000000000000 \<noteq> - (2 ^ 63)"
    by (simp add: sample_times)
  have lt: "(4999999999 :: int64) <s 5000000000" "\<not> (5000000000 :: int64) <s 5000000000"
    by (simp_all add: word_sless_alt)
  show ?thesis
    unfolding sample_signer_def
    using h lt
      max_age_enforcement [OF h, of "''s3cr3t''" "''django.contrib.sessions.SessionStore''"
        "''sha256''" sample_prims "''v''" 1700000005000000000 5000000000]
      max_age_enforcement [OF h, of "''s3cr3t''" "''django.contrib.sessions.SessionStore''"
        "''sha256''" sample_prims "''v''" 1700000005000000000 4999999999]
    by (simp add: Let_def sample_times)
qed

text \<open>
  C3 as stated fails: five seconds after signing, with a maximum age of one second,
  the age exceeds the bound and the result is not \<^verbatim>\<open>ErrSessionExpired\<close>.
\<close>

theorem max_age_error_is_not_ErrSessionExpired:
  "(1000000000 :: int64) <s time_Since 1700000005000000000 (time_Unix 1700000000)
   \<and> UnsignTimestamp sample_prims sample_signer 1700000005000000000
        (SignTimestamp sample_prims sample_signer 1700000000000000000 ''v'') (Some 1000000000)
       \<noteq> Inl ErrSessionExpired"
proof -
  have lt: "(1000000000 :: int64) <s 5000000000"
    by (simp add: word_sless_alt)
  have "b62_back 1700000000 = 1700000000" by (simp add: b62_back_def)
  then show ?thesis
    using lt
    by (simp add: UnsignTimestamp_SignTimestamp sample_signer_def sample_times Let_def)
qed

section \<open>Unsigning\<close>

lemma Unsign_never_sentinel:
  "Unsign P ds s = Inl e \<Longrightarrow> \<not> errors_Is e ErrInvalidSignature"
  by (auto simp: Unsign_def Let_def split: if_splits option.splits)

lemma Unsign_signed_value:
  assumes "Sep ds = '':''"
  shows "Unsign P ds (v @ '':'' @ signature P ds v) = Inr v"
  using Unsign_split [of ds "CHR '':''" "signature P ds v" P v] assms signature_no_colon
  by simp

text \<open>
  C4. \<^verbatim>\<open>Unsign\<close> splits at the last separator and compares signatures as claimed
  (\<open>Unsign_split\<close>, \<open>Unsign_no_separator\<close>, \<open>Unsign_signed_value\<close>), but its two
  failures are not \<^verbatim>\<open>ErrInvalidSignature\<close>: an input without separator gives
  \<^verbatim>\<open>errors.New("no separator found in value")\<close>, a wrong signature gives
  \<^verbatim>\<open>fmt.Errorf("signature does not match")\<close>, and neither is or wraps the sentinel.
\<close>

theorem Unsign_errors_are_not_ErrInvalidSignature:
  "Unsign P (NewDjangoSigner key) ''abc'' = Inl (ErrorsNew ''no separator found in value'')
   \<and> \<not> errors_Is (ErrorsNew ''no separator found in value'') ErrInvalidSignature
   \<and> Unsign sample_prims sample_signer ''abc:def'' = Inl (Errorf ''signature does not match'' [])
   \<and> \<not> errors_Is (Errorf ''signature does not match'' []) ErrInvalidSignature"
proof -
  have a: "Unsign P (NewDjangoSigner key) ''abc'' = Inl (ErrorsNew ''no separator found in value'')"
    by (rule Unsign_no_separator [where c = "CHR '':''"]) (simp_all add: NewDjangoSigner_def)
  have "signature sample_prims sample_signer ''abc'' = ''ZGphYWJj''"
    by code_simp
  then have b: "Unsign sample_prims sample_signer ''abc:def''
      = Inl (Errorf ''signature does not match'' [])"
    using Unsign_split [of sample_signer "CHR '':''" "''def''" sample_prims "''abc''"]
    by (simp add: sample_signer_def)
  show ?thesis using a b by simp
qed

section \<open>Identity extraction\<close>









lemma userID_of_session_float:
  "gomap_lookup m ''_auth_user_id'' = Some (GFloat64 f) \<Longrightarrow>
     userID_of_session m = Inr (fmt_Sprintf_0f f)"
  by (simp add: userID_of_session_def)

lemma DecodeSessionDataWithSalt_userID:
  assumes "\<not> 0 <s maxAgeSeconds"
    and "UnsignObject P \<lparr>SecretKey = key, Salt = salt, Sep = '':'', Algorithm = ''sha256''\<rparr>
           now sessionData None = Inr m"
  shows "DecodeSessionDataWithSalt P now sessionData key salt maxAgeSeconds = userID_of_session m"
  using assms by (simp add: DecodeSessionDataWithSalt_def)

lemma decodeSessionData_userID:
  assumes "\<not> 0 <s maxAge c" and "UnsignObject P (signer c) now sessionData None = Inr m"
  shows "fst (decodeSessionData P c now sessionData) = userID_of_session m"
  using assms by (simp add: decodeSessionData_def)




section \<open>The raw session lookup\<close>

text \<open>
  C7. An identifier that is empty or longer than 255 bytes gives
  \<^verbatim>\<open>ErrSessionNotFound\<close> at once: no query is sent to the store, whatever the store
  holds. For an admissible identifier, a store answer that is or wraps
  \<^verbatim>\<open>pgx.ErrNoRows\<close> also gives \<^verbatim>\<open>ErrSessionNotFound\<close>.
\<close>

theorem invalid_identifier_not_found:
  "(sessionKey = [] \<or> 255 < length sessionKey \<longrightarrow>
      GetRawSession c now sessionKey = (Inl ErrSessionNotFound, []))
   \<and> (sessionKey \<noteq> [] \<and> length sessionKey \<le> 255 \<and> db c sessionKey = Inl err
        \<and> errors_Is err PgxErrNoRows \<longrightarrow>
      GetRawSession c now sessionKey = (Inl ErrSessionNotFound, [EvQueryRow sessionKey]))"
  by (auto simp: GetRawSession_def)

theorem invalid_identifier_not_found_witness:
  "GetRawSession sample_client 0 [] = (Inl ErrSessionNotFound, [])
   \<and> GetRawSession sample_client 0 (replicate 256 CHR ''1'') = (Inl ErrSessionNotFound, [])
   \<and> GetRawSession sample_client 0 ''none'' = (Inl ErrSessionNotFound, [EvQueryRow ''none''])"
  using invalid_identifier_not_found [of "[]" sample_client 0 PgxErrNoRows]
    invalid_identifier_not_found [of "replicate 256 CHR ''1''" sample_client 0 PgxErrNoRows]
    invalid_identifier_not_found [of "''none''" sample_client 0 PgxErrNoRows]
  by (simp add: sample_client_def)

text \<open>
  C6 (as amended). For an admissible identifier whose record the store returns,
  \<^verbatim>\<open>GetRawSession\<close> returns that record, payload untouched, exactly when the check
  time is not after the record's expiry (the expiry is now or later); when the check
  time is after the expiry it returns \<^verbatim>\<open>ErrSessionExpired\<close>. Either way the only
  thing it does is the one store query: no payload goes to the signer.
\<close>

theorem raw_session_expiry:
  assumes "sessionKey \<noteq> []" and "length sessionKey \<le> 255"
    and "db c sessionKey = Inr session"
  shows "(fst (GetRawSession c now sessionKey) = Inr session \<longleftrightarrow> now \<le> ExpireDate session)
     \<and> (ExpireDate session < now \<longrightarrow> fst (GetRawSession c now sessionKey) = Inl ErrSessionExpired)
     \<and> snd (GetRawSession c now sessionKey) = [EvQueryRow sessionKey]"
  using assms by (auto simp: GetRawSession_def time_After_def)

theorem raw_session_expiry_witness:
  "fst (GetRawSession sample_client 99 ''abc'') = Inr sample_session
   \<and> fst (GetRawSession sample_client 101 ''abc'') = Inl ErrSessionExpired
   \<and> snd (GetRawSession sample_client 101 ''abc'') = [EvQueryRow ''abc'']"
  using raw_session_expiry [of "''abc''" sample_client sample_session 99]
    raw_session_expiry [of "''abc''" sample_client sample_session 101]
  by (simp add: sample_client_def sample_session_def)

text \<open>
  C6 as stated fails at the boundary: a record whose expiry is exactly the check
  time is not strictly in the future, and it is returned.
\<close>

theorem record_expiring_now_is_returned:
  "fst (GetRawSession sample_client 100 ''abc'') = Inr sample_session
   \<and> \<not> 100 < ExpireDate sample_session"
  by (simp add: GetRawSession_def sample_client_def sample_session_def time_After_def)

section \<open>Encoding and updating sessions\<close>






lemma apply_updates_NilMap_panics:
  "v \<noteq> GNil \<Longrightarrow> apply_updates NilMap ((k, v) # U) = Inl (Panic ''assignment to entry in nil map'')"
  by simp




lemma sample_merged:
  "GoMap ([''_auth_user_id'' \<mapsto> GString ''1''] ++ map_of [(''_auth_user_id'', GString ''42'')])
     = sample_object ''42''"
  by (simp add: sample_object_def)






end
